theory Spec2Isabelle
  imports Complex_Main
begin

section \<open>Python strings\<close>

text \<open>
  A Python \<open>str\<close> is a sequence of code points and \<open>len\<close> counts code points. The model
  is \<^typ>\<open>string\<close>, read as the sequence of code points below 256 (Latin-1): one
  \<^typ>\<open>char\<close> is one code point, \<^term>\<open>of_char c :: nat\<close> is its number. The
  character predicates below are Python's on that range. Code points from 256 on are outside
  the model.
\<close>

definition py_isspace :: "char \<Rightarrow> bool" where
  \<comment> \<open>\<open>str.isspace\<close> of one character; the regular expression class \<open>\s\<close> is the same set\<close>
  "py_isspace c =
     (let n = (of_char c :: nat)
      in (9 \<le> n \<and> n \<le> 13) \<or> (28 \<le> n \<and> n \<le> 32) \<or> n = 133 \<or> n = 160)"

definition ascii_alpha :: "char \<Rightarrow> bool" where
  \<comment> \<open>the class \<open>[a-zA-Z]\<close>\<close>
  "ascii_alpha c =
     (let n = (of_char c :: nat) in (65 \<le> n \<and> n \<le> 90) \<or> (97 \<le> n \<and> n \<le> 122))"

definition ascii_digit :: "char \<Rightarrow> bool" where
  \<comment> \<open>the class \<open>[0-9]\<close>\<close>
  "ascii_digit c = (let n = (of_char c :: nat) in 48 \<le> n \<and> n \<le> 57)"

definition py_isalnum :: "char \<Rightarrow> bool" where
  \<comment> \<open>\<open>str.isalnum\<close> of one character: the ASCII letters and digits, the Latin-1 letters,
      and the Latin-1 superscript digits and vulgar fractions\<close>
  "py_isalnum c =
     (let n = (of_char c :: nat)
      in ascii_alpha c \<or> ascii_digit c \<or> n = 170 \<or> n = 178 \<or> n = 179 \<or> n = 181
         \<or> n = 185 \<or> n = 186 \<or> (188 \<le> n \<and> n \<le> 190) \<or> (192 \<le> n \<and> n \<le> 214)
         \<or> (216 \<le> n \<and> n \<le> 246) \<or> 248 \<le> n)"

definition py_lower_char :: "char \<Rightarrow> char" where
  \<comment> \<open>\<open>str.lower\<close> of one character: A-Z and the Latin-1 capitals move up by 32\<close>
  "py_lower_char c =
     (let n = (of_char c :: nat)
      in if (65 \<le> n \<and> n \<le> 90) \<or> (192 \<le> n \<and> n \<le> 214) \<or> (216 \<le> n \<and> n \<le> 222)
         then char_of (n + 32) else c)"

definition py_lower :: "string \<Rightarrow> string" where
  "py_lower s = map py_lower_char s"

definition py_strip :: "string \<Rightarrow> string" where
  \<comment> \<open>\<open>str.strip()\<close>: leading and trailing whitespace removed\<close>
  "py_strip s = rev (dropWhile py_isspace (rev (dropWhile py_isspace s)))"

fun py_split :: "char \<Rightarrow> string \<Rightarrow> string list" where
  \<comment> \<open>\<open>s.split(sep)\<close> for a separator of one character\<close>
  "py_split sep [] = [] # []"
| "py_split sep (c # cs) =
     (if c = sep then [] # py_split sep cs
      else (case py_split sep cs of
              [] \<Rightarrow> [c] # []
            | p # ps \<Rightarrow> (c # p) # ps))"

function py_replace :: "string \<Rightarrow> string \<Rightarrow> string \<Rightarrow> string" where
  \<comment> \<open>\<open>s.replace(old, new)\<close>: every occurrence of \<open>old\<close>, found from the left, without
      overlap; an empty \<open>old\<close> matches before every character and at the end\<close>
  "py_replace old new [] = (if old = [] then new else [])"
| "py_replace old new (c # cs) =
     (if old = [] then new @ c # py_replace old new cs
      else if take (length old) (c # cs) = old
           then new @ py_replace old new (drop (length old) (c # cs))
           else c # py_replace old new cs)"
  by pat_completeness auto
termination
  by (relation "measure (\<lambda>(old, new, s). length s)") auto

definition digit_char :: "nat \<Rightarrow> char" where
  "digit_char d = char_of (48 + d)"

function str_nat :: "nat \<Rightarrow> string" where
  "str_nat n = (if n < 10 then [digit_char n] else str_nat (n div 10) @ [digit_char (n mod 10)])"
  by pat_completeness auto
termination
  by (relation "measure (\<lambda>n. n)") auto

definition str_int :: "int \<Rightarrow> string" where
  \<comment> \<open>\<open>str(i)\<close>, also what an f-string writes for an integer\<close>
  "str_int i = (if i < 0 then CHR ''-'' # str_nat (nat (- i)) else str_nat (nat i))"

datatype py_error = IndexError | KeyError

definition py_index :: "'a list \<Rightarrow> nat \<Rightarrow> py_error + 'a" where
  \<comment> \<open>\<open>xs[i]\<close> for a literal index \<open>i \<ge> 0\<close>\<close>
  "py_index xs i = (if i < length xs then Inr (xs ! i) else Inl IndexError)"

section \<open>Regular expressions\<close>

text \<open>
  The patterns of \<open>validators.py\<close> are built from character classes, concatenation and
  repetition. A pattern is a value of \<open>regex\<close>; matching is by derivatives: \<open>deriv c r\<close>
  matches what \<open>r\<close> matches after a leading \<open>c\<close>.
\<close>

datatype regex =
    Never
  | Blank
  | Sym "char \<Rightarrow> bool"
  | Alt regex regex
  | Seq regex regex
  | Star regex

fun nullable :: "regex \<Rightarrow> bool" where
  "nullable Never = False"
| "nullable Blank = True"
| "nullable (Sym p) = False"
| "nullable (Alt r s) = (nullable r \<or> nullable s)"
| "nullable (Seq r s) = (nullable r \<and> nullable s)"
| "nullable (Star r) = True"

fun deriv :: "char \<Rightarrow> regex \<Rightarrow> regex" where
  "deriv c Never = Never"
| "deriv c Blank = Never"
| "deriv c (Sym p) = (if p c then Blank else Never)"
| "deriv c (Alt r s) = Alt (deriv c r) (deriv c s)"
| "deriv c (Seq r s) =
     (if nullable r then Alt (Seq (deriv c r) s) (deriv c s) else Seq (deriv c r) s)"
| "deriv c (Star r) = Seq (deriv c r) (Star r)"

fun re_fullmatch :: "regex \<Rightarrow> string \<Rightarrow> bool" where
  \<comment> \<open>the whole string matches\<close>
  "re_fullmatch r [] = nullable r"
| "re_fullmatch r (c # cs) = re_fullmatch (deriv c r) cs"

fun re_prefix :: "regex \<Rightarrow> string \<Rightarrow> bool" where
  \<comment> \<open>some prefix of the string matches\<close>
  "re_prefix r [] = nullable r"
| "re_prefix r (c # cs) = (nullable r \<or> re_prefix (deriv c r) cs)"

fun re_search :: "regex \<Rightarrow> string \<Rightarrow> bool" where
  \<comment> \<open>\<open>re.search(r, s)\<close> finds a match: some substring matches\<close>
  "re_search r [] = nullable r"
| "re_search r (c # cs) = (re_prefix r (c # cs) \<or> re_search r cs)"

definition re_match_anchored :: "regex \<Rightarrow> string \<Rightarrow> bool" where
  \<comment> \<open>\<open>re.match('^' + r + '$', s)\<close> finds a match: \<open>$\<close> is the end of the string, or the
      position before a newline that ends the string\<close>
  "re_match_anchored r s =
     (re_fullmatch r s \<or> (s \<noteq> [] \<and> last s = CHR 0x0A \<and> re_fullmatch r (butlast s)))"

definition Plus :: "regex \<Rightarrow> regex" where
  \<comment> \<open>\<open>r+\<close>\<close>
  "Plus r = Seq r (Star r)"

definition lit_ci :: "string \<Rightarrow> regex" where
  \<comment> \<open>a literal under \<open>re.IGNORECASE\<close>: each character matches in either case\<close>
  "lit_ci s = foldr (\<lambda>c r. Seq (Sym (\<lambda>d. py_lower_char d = py_lower_char c)) r) s Blank"

text \<open>
  What a pattern matches, stated without derivatives: \<open>accepts r w\<close> when the whole of
  \<open>w\<close> is a match of \<open>r\<close>. It is used to reason about the matcher.
\<close>

inductive accepts :: "regex \<Rightarrow> string \<Rightarrow> bool" where
  acc_Blank: "accepts Blank []"
| acc_Sym: "p c \<Longrightarrow> accepts (Sym p) [c]"
| acc_AltL: "accepts r w \<Longrightarrow> accepts (Alt r s) w"
| acc_AltR: "accepts s w \<Longrightarrow> accepts (Alt r s) w"
| acc_Seq: "accepts r u \<Longrightarrow> accepts s v \<Longrightarrow> accepts (Seq r s) (u @ v)"
| acc_Star0: "accepts (Star r) []"
| acc_StarS: "accepts r u \<Longrightarrow> accepts (Star r) v \<Longrightarrow> accepts (Star r) (u @ v)"

function re_sub_spaces :: "string \<Rightarrow> string" where
  \<comment> \<open>\<open>re.sub(r'\s+', ' ', s)\<close>: each maximal run of whitespace becomes one space\<close>
  "re_sub_spaces [] = []"
| "re_sub_spaces (c # cs) =
     (if py_isspace c then CHR '' '' # re_sub_spaces (dropWhile py_isspace cs)
      else c # re_sub_spaces cs)"
  by pat_completeness auto
termination
  by (relation "measure length") (auto simp: length_dropWhile_le less_Suc_eq_le)

section \<open>utils/validators.py\<close>

record ValidationResult =
  is_valid :: bool
  "value" :: string
  error :: "string option"

definition email_local_char :: "char \<Rightarrow> bool" where
  \<comment> \<open>\<open>[a-zA-Z0-9._%+-]\<close>\<close>
  "email_local_char c = (ascii_alpha c \<or> ascii_digit c \<or> c \<in> set ''._%+-'')"

definition email_domain_char :: "char \<Rightarrow> bool" where
  \<comment> \<open>\<open>[a-zA-Z0-9.-]\<close>\<close>
  "email_domain_char c = (ascii_alpha c \<or> ascii_digit c \<or> c \<in> set ''.-'')"

definition email_pattern :: regex where
  \<comment> \<open>\<open>[a-zA-Z0-9._%+-]+@[a-zA-Z0-9.-]+\.[a-zA-Z]{2,}\<close>, between \<open>^\<close> and \<open>$\<close>\<close>
  "email_pattern =
     Seq (Plus (Sym email_local_char))
       (Seq (Sym (\<lambda>c. c = CHR ''@''))
         (Seq (Plus (Sym email_domain_char))
           (Seq (Sym (\<lambda>c. c = CHR ''.''))
             (Seq (Sym ascii_alpha) (Plus (Sym ascii_alpha))))))"

definition common_domains :: "(string \<times> string) list" where
  "common_domains =
     [(''gmial.com'', ''gmail.com''),
      (''gmal.com'', ''gmail.com''),
      (''gamil.com'', ''gmail.com''),
      (''yaho.com'', ''yahoo.com''),
      (''hotmal.com'', ''hotmail.com'')]"

definition validate_email :: "string \<Rightarrow> py_error + ValidationResult" where
  "validate_email email0 =
     (if email0 = [] then
        Inr \<lparr>is_valid = False, value = [], error = Some ''Email address is required''\<rparr>
      else
        let email = py_lower (py_strip email0) in
        if \<not> re_match_anchored email_pattern email then
          Inr \<lparr>is_valid = False, value = email,
               error = Some ''Invalid email format. Please enter a valid email address.''\<rparr>
        else
          (case py_index (py_split CHR ''@'' email) 1 of
             Inl e \<Rightarrow> Inl e
           | Inr domain \<Rightarrow>
               (case map_of common_domains domain of
                  Some fixed \<Rightarrow>
                    let suggested = py_replace domain fixed email in
                    Inr \<lparr>is_valid = False, value = email,
                         error = Some (''Did you mean '' @ [CHR 0x27] @ suggested
                                       @ [CHR 0x27] @ ''?'')\<rparr>
                | None \<Rightarrow> Inr \<lparr>is_valid = True, value = email, error = None\<rparr>)))"

text \<open>
  The two parts of an address, in the words of the specification: the local part is the
  text before the first \<open>@\<close>, the domain is the text after it. The corrected address of an
  address whose domain is in the typo table keeps the local part and has the table's entry
  as its domain.
\<close>

definition local_part :: "string \<Rightarrow> string" where
  "local_part email = takeWhile (\<lambda>c. c \<noteq> CHR ''@'') email"

definition domain_part :: "string \<Rightarrow> string" where
  "domain_part email = drop (Suc (length (local_part email))) email"

definition corrected_address :: "string \<Rightarrow> string option" where
  "corrected_address email =
     (case map_of common_domains (domain_part email) of
        None \<Rightarrow> None
      | Some fixed \<Rightarrow> Some (local_part email @ CHR ''@'' # fixed))"

definition dangerous_patterns :: "regex list" where
  \<comment> \<open>\<open><script\<close>, \<open>javascript:\<close> and \<open>on\w+\s*=\<close>, searched with \<open>re.IGNORECASE\<close>;
      \<open>\w\<close> is an alphanumeric character or the underscore\<close>
  "dangerous_patterns =
     [lit_ci ''<script'',
      lit_ci ''javascript:'',
      Seq (lit_ci ''on'')
        (Seq (Plus (Sym (\<lambda>c. py_isalnum c \<or> c = CHR ''_'')))
          (Seq (Star (Sym py_isspace)) (lit_ci ''='')))]"

definition validate_topic :: "string \<Rightarrow> int \<Rightarrow> int \<Rightarrow> ValidationResult" where
  "validate_topic topic0 min_length max_length =
     (if topic0 = [] then
        \<lparr>is_valid = False, value = [], error = Some ''Research topic is required''\<rparr>
      else
        let topic = re_sub_spaces (py_strip topic0) in
        if int (length topic) < min_length then
          \<lparr>is_valid = False, value = topic,
            error = Some (''Topic must be at least '' @ str_int min_length
                          @ '' characters long'')\<rparr>
        else if int (length topic) > max_length then
          \<lparr>is_valid = False, value = topic,
            error = Some (''Topic must be less than '' @ str_int max_length
                          @ '' characters'')\<rparr>
        else if \<exists>pattern \<in> set dangerous_patterns. re_search pattern topic then
          \<lparr>is_valid = False, value = topic, error = Some ''Topic contains invalid characters''\<rparr>
        else
          \<lparr>is_valid = True, value = topic, error = None\<rparr>)"

section \<open>config/settings.py\<close>

datatype provider = Gemini | OpenAI

datatype log_level = DEBUG | INFO | WARNING | ERROR

text \<open>
  The fields of \<open>Settings\<close>. An \<open>Optional[str]\<close> is a \<^typ>\<open>string option\<close>: \<open>None\<close> is
  Python's \<open>None\<close>, and \<open>Some []\<close> is the empty string, which the environment gives for a
  variable that is set to nothing. The temperature is a float that is only passed on.
\<close>

record Settings =
  google_api_key :: "string option"
  openai_api_key :: "string option"
  llm_provider :: provider
  gemini_model :: string
  openai_model :: string
  llm_temperature :: rat
  serper_api_key :: "string option"
  email_user :: "string option"
  email_pass :: "string option"
  smtp_server :: string
  smtp_port :: int
  log_level :: log_level
  enable_memory :: bool
  enable_verbose :: bool
  max_agent_iterations :: int
  max_rpm :: int

definition default_settings :: Settings where
  \<comment> \<open>the \<open>Field\<close> defaults, with no variable set in the environment\<close>
  "default_settings =
     \<lparr>google_api_key = None, openai_api_key = None, llm_provider = Gemini,
      gemini_model = ''gemini/gemini-2.5-flash'', openai_model = ''gpt-4-turbo-preview'',
      llm_temperature = 7 / 10, serper_api_key = None, email_user = None, email_pass = None,
      smtp_server = ''smtp.gmail.com'', smtp_port = 587, log_level = INFO,
      enable_memory = True, enable_verbose = True, max_agent_iterations = 5, max_rpm = 4\<rparr>"

definition field_constraints :: "Settings \<Rightarrow> bool" where
  \<comment> \<open>the \<open>ge\<close>/\<open>le\<close> bounds of the \<open>Field\<close> declarations, which every constructed
      \<open>Settings\<close> satisfies\<close>
  "field_constraints s =
     (0 \<le> llm_temperature s \<and> llm_temperature s \<le> 2
      \<and> 1 \<le> max_agent_iterations s \<and> max_agent_iterations s \<le> 20
      \<and> 1 \<le> max_rpm s)"

definition current_model :: "Settings \<Rightarrow> string" where
  "current_model s = (if llm_provider s = OpenAI then openai_model s else gemini_model s)"

definition current_api_key :: "Settings \<Rightarrow> string option" where
  "current_api_key s = (if llm_provider s = OpenAI then openai_api_key s else google_api_key s)"

definition validate_required_keys :: "Settings \<Rightarrow> (string \<rightharpoonup> bool)" where
  "validate_required_keys s =
     [''llm'' \<mapsto> current_api_key s \<noteq> None,
      ''search'' \<mapsto> serper_api_key s \<noteq> None,
      ''email'' \<mapsto> email_user s \<noteq> None \<and> email_pass s \<noteq> None]"

definition py_not :: "string option \<Rightarrow> bool" where
  \<comment> \<open>\<open>not x\<close> for an \<open>Optional[str]\<close>: true of \<open>None\<close> and of the empty string\<close>
  "py_not x = (case x of None \<Rightarrow> True | Some v \<Rightarrow> v = [])"

definition get_missing_keys :: "Settings \<Rightarrow> py_error + string list" where
  "get_missing_keys s =
     (let validation = validate_required_keys s in
      case validation ''llm'' of
        None \<Rightarrow> Inl KeyError
      | Some llm_ok \<Rightarrow>
          let key_name = (if llm_provider s = OpenAI then ''OPENAI_API_KEY''
                          else ''GOOGLE_API_KEY'');
              missing1 = (if \<not> llm_ok then [key_name] else [])
          in
          (case validation ''search'' of
             None \<Rightarrow> Inl KeyError
           | Some search_ok \<Rightarrow>
               let missing2 = missing1 @ (if \<not> search_ok then [''SERPER_API_KEY''] else [])
               in
               (case validation ''email'' of
                  None \<Rightarrow> Inl KeyError
                | Some email_ok \<Rightarrow>
                    Inr (if \<not> email_ok then
                           missing2
                           @ (if py_not (email_user s) then [''EMAIL_USER''] else [])
                           @ (if py_not (email_pass s) then [''EMAIL_PASS''] else [])
                         else missing2))))"

section \<open>agents/base_agent.py and agents/email_agent.py\<close>

record LLM =
  model :: string
  temperature :: rat
  max_retries :: int

record 'tool AgentConfig =
  role :: string
  goal :: string
  backstory :: string
  tools :: "'tool list"
  verbose :: bool
  max_iter :: int
  allow_delegation :: bool

text \<open>
  \<open>Agent\<close> is the framework's class; the model keeps the keyword arguments it is built
  from. Its \<open>llm\<close> is a reference to an \<open>LLM\<close> object.
\<close>

record 'tool Agent =
  role :: string
  goal :: string
  backstory :: string
  tools :: "'tool list"
  llm :: nat
  verbose :: bool
  max_iter :: int
  allow_delegation :: bool

text \<open>
  The class attribute \<open>AgentFactory._llm_instance\<close> holds \<open>None\<close> or a reference to an
  \<open>LLM\<close> object. Objects have identity: \<open>llm_objects\<close> lists every \<open>LLM\<close> constructed so
  far, in order, and the reference to an object is its position there. Two references are
  the identical instance when they are equal.
\<close>

record Factory =
  llm_instance :: "nat option"
  llm_objects :: "LLM list"

definition factory_at_import :: Factory where
  "factory_at_import = \<lparr>llm_instance = None, llm_objects = []\<rparr>"

definition factory_ok :: "Factory \<Rightarrow> bool" where
  \<comment> \<open>a cached reference refers to an object that has been constructed\<close>
  "factory_ok f = (case llm_instance f of None \<Rightarrow> True | Some r \<Rightarrow> r < length (llm_objects f))"

definition get_llm :: "Settings \<Rightarrow> Factory \<Rightarrow> nat \<times> Factory" where
  "get_llm settings f =
     (case llm_instance f of
        None \<Rightarrow>
          let obj = \<lparr>model = current_model settings, temperature = llm_temperature settings,
                     max_retries = 5\<rparr>;
              r = length (llm_objects f)
          in (r, f\<lparr>llm_instance := Some r, llm_objects := llm_objects f @ [obj]\<rparr>)
      | Some r \<Rightarrow> (r, f))"

definition reset_llm :: "Factory \<Rightarrow> Factory" where
  "reset_llm f = f\<lparr>llm_instance := None\<rparr>"

definition py_or :: "int \<Rightarrow> int \<Rightarrow> int" where
  \<comment> \<open>\<open>a or b\<close> on integers: \<open>a\<close> unless it is 0\<close>
  "py_or a b = (if a \<noteq> 0 then a else b)"

definition create_agent :: "'tool AgentConfig \<Rightarrow> Settings \<Rightarrow> Factory \<Rightarrow> 'tool Agent \<times> Factory" where
  "create_agent config settings f =
     (let (r, f') = get_llm settings f in
      (\<lparr>Agent.role = AgentConfig.role config,
        Agent.goal = AgentConfig.goal config,
        Agent.backstory = AgentConfig.backstory config,
        Agent.tools = AgentConfig.tools config,
        Agent.llm = r,
        Agent.verbose = (enable_verbose settings \<and> AgentConfig.verbose config),
        Agent.max_iter = py_or (max_agent_iterations settings) (AgentConfig.max_iter config),
        Agent.allow_delegation = AgentConfig.allow_delegation config\<rparr>, f'))"

definition py_join :: "string \<Rightarrow> string list \<Rightarrow> string" where
  "py_join sep xs = (case xs of [] \<Rightarrow> [] | y # ys \<Rightarrow> y @ concat (map (\<lambda>l. sep @ l) ys))"

definition EMAIL_AGENT_BACKSTORY :: string where
  "EMAIL_AGENT_BACKSTORY = py_join [CHR 0x0A]
     [''You are a senior communications specialist with expertise in '',
      ''corporate communications and professional correspondence. Your strengths include:'',
      [],
      ''- Crafting clear, engaging professional emails'',
      ''- Adapting tone and style for different audiences'',
      ''- Structuring information for maximum impact and readability'',
      ''- Writing compelling subject lines that encourage opens'',
      ''- Ensuring proper email etiquette and formatting'',
      [],
      ''Your approach to professional email communication:'',
      ''1. Open with a clear, professional greeting'',
      ''2. State the purpose immediately'',
      ''3. Present key information in a scannable format'',
      ''4. Use bullet points and sections for clarity'',
      ''5. Include a clear call-to-action if needed'',
      ''6. Close professionally with appropriate sign-off'',
      [],
      ''You understand that email is often the first impression an organization makes,'',
      ''and you treat every message as an opportunity to demonstrate professionalism and value.'']"

definition email_agent_config :: "'tool \<Rightarrow> 'tool AgentConfig" where
  \<comment> \<open>the \<open>AgentConfig\<close> that \<open>create_email_agent\<close> builds; \<open>email_tool\<close> is what
      \<open>create_email_tool()\<close> returned; \<open>verbose\<close> has its default\<close>
  "email_agent_config email_tool =
     \<lparr>AgentConfig.role = ''Email Communication Specialist'',
      AgentConfig.goal =
        ''Compose and send professional, well-formatted research reports via email'',
      AgentConfig.backstory = EMAIL_AGENT_BACKSTORY,
      AgentConfig.tools = [email_tool],
      AgentConfig.verbose = True,
      AgentConfig.max_iter = 2,
      AgentConfig.allow_delegation = False\<rparr>"

definition create_email_agent :: "'tool \<Rightarrow> Settings \<Rightarrow> Factory \<Rightarrow> 'tool Agent \<times> Factory" where
  "create_email_agent email_tool settings f =
     create_agent (email_agent_config email_tool) settings f"

section \<open>services/crew_service.py\<close>

text \<open>
  \<open>datetime.now()\<close> is a reading of the wall clock, in microseconds. The timestamp of a
  result is such a reading; \<open>execution_time\<close> is the difference of two readings in seconds,
  a \<^typ>\<open>rat\<close> (the float that \<open>total_seconds()\<close> returns has the same sign).
\<close>

record ResearchResult =
  success :: bool
  research_output :: "string option"
  summary_output :: "string option"
  email_output :: "string option"
  error_message :: "string option"
  execution_time :: rat
  timestamp :: int

record TaskOutput =
  raw :: string

text \<open>
  What \<open>crew.kickoff()\<close> returns. \<open>tasks_output\<close> is \<open>None\<close> when the object has no such
  attribute or the attribute is \<open>None\<close>.
\<close>

record CrewOutput =
  tasks_output :: "TaskOutput list option"

datatype exc = Exception string
  \<comment> \<open>an instance of \<open>Exception\<close>; the string is \<open>str(e)\<close>\<close>

text \<open>
  A callable object given as \<open>progress_callback\<close>. \<open>truthy\<close> is its truth value in an
  \<open>if\<close>: true of every function, false of a callable object whose \<open>__bool__\<close> or
  \<open>__len__\<close> says so. Called with a percentage and a message it returns (\<open>None\<close> here) or
  raises (\<open>Some e\<close>); the calls of one run all differ in their percentage, so a function of
  the arguments covers a callable with state.
\<close>

record Callback =
  truthy :: bool
  call :: "int \<Rightarrow> string \<Rightarrow> exc option"

definition returns_quietly :: "int \<Rightarrow> string \<Rightarrow> exc option" where
  \<comment> \<open>the behaviour of a callable that never raises\<close>
  "returns_quietly percentage message = None"

text \<open>
  What is outside \<open>execute_research_workflow\<close>, for one run: the callback given to the
  constructor (\<open>None\<close> when there is none), the readings of the clock in the order they are
  taken, and the outcome of each call into the agent framework (\<open>Inl e\<close>: it raises \<open>e\<close>).
  The topic, the recipient, the format and the number of results only go into those calls
  and the log.
\<close>

record Env =
  progress_callback :: "Callback option"
  clock :: "nat \<Rightarrow> int"
  create_agents :: "exc + unit"
  create_tasks :: "exc + unit"
  assemble_crew :: "exc + unit"
  kickoff :: "exc + CrewOutput"

text \<open>
  The effects of a run: the calls made to the callback, in order, and the number of clock
  readings taken. The task logger writes to the log and reads the clock; writing the log
  is not modelled.
\<close>

record Run =
  calls :: "(int \<times> string) list"
  readings :: nat

definition run_start :: Run where
  "run_start = \<lparr>calls = [], readings = 0\<rparr>"

definition now :: "Env \<Rightarrow> Run \<Rightarrow> int \<times> Run" where
  "now env st = (clock env (readings st), st\<lparr>readings := Suc (readings st)\<rparr>)"

definition total_seconds :: "int \<Rightarrow> rat" where
  "total_seconds us = of_int us / 1000000"

definition update_progress :: "Env \<Rightarrow> int \<Rightarrow> string \<Rightarrow> Run \<Rightarrow> (exc + unit) \<times> Run" where
  \<comment> \<open>\<open>CrewService._update_progress\<close>\<close>
  "update_progress env percentage message st =
     (case progress_callback env of
        None \<Rightarrow> (Inr (), st)
      | Some cb \<Rightarrow>
          if \<not> truthy cb then (Inr (), st)
          else
            (case call cb percentage message of
               Some e \<Rightarrow> (Inl e, st\<lparr>calls := calls st @ [(percentage, message)]\<rparr>)
             | None \<Rightarrow> (Inr (), st\<lparr>calls := calls st @ [(percentage, message)]\<rparr>)))"

definition subscriber :: "Env \<Rightarrow> (int \<Rightarrow> string \<Rightarrow> exc option) option" where
  \<comment> \<open>what a progress report calls, if anything: the callback that is given and truthy\<close>
  "subscriber env =
     (case progress_callback env of
        None \<Rightarrow> None
      | Some cb \<Rightarrow> if truthy cb then Some (call cb) else None)"

definition and_then ::
  "(exc + 'a) \<times> Run \<Rightarrow> ('a \<Rightarrow> Run \<Rightarrow> (exc + 'b) \<times> Run) \<Rightarrow> (exc + 'b) \<times> Run" where
  \<comment> \<open>the next statement of the \<open>try\<close> block runs unless the one before raised\<close>
  "and_then m k = (case m of (Inl e, st) \<Rightarrow> (Inl e, st) | (Inr a, st) \<Rightarrow> k a st)"

definition extract_outputs :: "CrewOutput \<Rightarrow> string option \<times> string option \<times> string option" where
  \<comment> \<open>lines 156 to 166: the three slots start as \<open>None\<close>\<close>
  "extract_outputs result =
     (case tasks_output result of
        None \<Rightarrow> (None, None, None)
      | Some outs \<Rightarrow>
          if outs = [] then (None, None, None)
          else
            (if length outs > 0 then Some (raw (outs ! 0)) else None,
             if length outs > 1 then Some (raw (outs ! 1)) else None,
             if length outs > 2 then Some (raw (outs ! 2)) else None))"

definition try_block :: "Env \<Rightarrow> int \<Rightarrow> Run \<Rightarrow> (exc + ResearchResult) \<times> Run" where
  "try_block env start_time st0 =
     and_then (update_progress env 10 ''Assembling AI research team...'' st0) (\<lambda>_ st.
     and_then (create_agents env, st) (\<lambda>_ st.
     and_then (update_progress env 25 ''Configuring research tasks...'' st) (\<lambda>_ st.
     and_then (create_tasks env, st) (\<lambda>_ st.
     and_then (update_progress env 40 ''Initiating research process...'' st) (\<lambda>_ st.
     and_then (assemble_crew env, st) (\<lambda>_ st.
     and_then (update_progress env 50 ''AI agents working on research...'' st) (\<lambda>_ st.
     and_then (kickoff env, st) (\<lambda>result st.
     and_then (update_progress env 90 ''Finalizing results...'' st) (\<lambda>_ st.
       let (research, summary, email) = extract_outputs result;
           (t, st) = now env st;
           elapsed = total_seconds (t - start_time)
       in
     and_then (update_progress env 100 ''Research complete!'' st) (\<lambda>_ st.
       let (_, st) = now env st;
           (stamp, st) = now env st
       in (Inr \<lparr>success = True, research_output = research, summary_output = summary,
                email_output = email, error_message = None, execution_time = elapsed,
                timestamp = stamp\<rparr>, st)))))))))))"

definition execute_research_workflow :: "Env \<Rightarrow> ResearchResult \<times> Run" where
  \<comment> \<open>the result returned to the caller and the effects of the run; clock readings:
      \<open>start_time\<close>, the task logger's start, then inside the \<open>try\<close> block the end of the
      run, the task logger's success line and the timestamp of the result, or in the handler
      the end of the run and the timestamp of the result\<close>
  "execute_research_workflow env =
     (let (start_time, st) = now env run_start;
          (_, st) = now env st
      in case try_block env start_time st of
           (Inr r, st) \<Rightarrow> (r, st)
         | (Inl (Exception msg), st) \<Rightarrow>
             let (t, st) = now env st;
                 (stamp, st) = now env st
             in (\<lparr>success = False, research_output = None, summary_output = None,
                  email_output = None, error_message = Some msg,
                  execution_time = total_seconds (t - start_time), timestamp = stamp\<rparr>, st))"

definition reaches_kickoff :: "Env \<Rightarrow> bool" where
  \<comment> \<open>nothing before \<open>crew.kickoff()\<close> raises: the engine is started\<close>
  "reaches_kickoff env =
     (create_agents env = Inr () \<and> create_tasks env = Inr () \<and> assemble_crew env = Inr ()
      \<and> (case subscriber env of
            None \<Rightarrow> True
          | Some f \<Rightarrow>
              f 10 ''Assembling AI research team...'' = None
              \<and> f 25 ''Configuring research tasks...'' = None
              \<and> f 40 ''Initiating research process...'' = None
              \<and> f 50 ''AI agents working on research...'' = None))"

definition subscriber_returns :: "Env \<Rightarrow> bool" where
  \<comment> \<open>the subscriber, when there is one, does not raise on the last two milestones\<close>
  "subscriber_returns env =
     (case subscriber env of
        None \<Rightarrow> True
      | Some f \<Rightarrow> f 90 ''Finalizing results...'' = None \<and> f 100 ''Research complete!'' = None)"

section \<open>ui/components.py\<close>

text \<open>
  \<open>render_download_buttons\<close> draws on the page; the model returns the download buttons it
  draws, in order, each with the keyword arguments of \<open>st.download_button\<close>.
\<close>

record DownloadButton =
  label :: string
  data :: string
  file_name :: string
  mime :: string
  use_container_width :: bool

definition safe_topic :: "string \<Rightarrow> string" where
  \<comment> \<open>the local variable \<open>safe_topic\<close> after its two assignments\<close>
  "safe_topic topic =
     py_strip (take 50 (map (\<lambda>c. if py_isalnum c \<or> c \<in> set '' -_'' then c else CHR ''_'') topic))"

definition render_download_buttons :: "ResearchResult \<Rightarrow> string \<Rightarrow> DownloadButton list" where
  \<comment> \<open>a button is drawn for an output that is neither \<open>None\<close> nor empty\<close>
  "render_download_buttons result topic =
     (if \<not> success result then []
      else
        (case research_output result of
           None \<Rightarrow> []
         | Some text \<Rightarrow>
             if text = [] then []
             else [\<lparr>label = ''Download Research Report'', data = text,
                    file_name = ''research_report_'' @ safe_topic topic @ ''.md'',
                    mime = ''text/markdown'', use_container_width = True\<rparr>])
        @ (case summary_output result of
             None \<Rightarrow> []
           | Some text \<Rightarrow>
               if text = [] then []
               else [\<lparr>label = ''Download Summary'', data = text,
                      file_name = ''summary_'' @ safe_topic topic @ ''.md'',
                      mime = ''text/markdown'', use_container_width = True\<rparr>]))"

section \<open>The shared model handle and the Email-Sender role\<close>

text \<open>
  C6. Calling the shared-model accessor twice without a reset returns the identical cached
  instance, and the second call changes nothing; after \<open>reset_llm\<close>, the next access returns
  a reference to an object that is constructed by that access: it is appended to the
  objects constructed so far, so it is not the instance returned before.
\<close>

theorem get_llm_cached_until_reset:
  assumes "factory_ok f"
  shows "fst (get_llm s' (snd (get_llm s f))) = fst (get_llm s f)
       \<and> snd (get_llm s' (snd (get_llm s f))) = snd (get_llm s f)
       \<and> fst (get_llm s' (reset_llm (snd (get_llm s f)))) \<noteq> fst (get_llm s f)
       \<and> fst (get_llm s' (reset_llm (snd (get_llm s f))))
           = length (llm_objects (snd (get_llm s f)))
       \<and> llm_objects (snd (get_llm s' (reset_llm (snd (get_llm s f)))))
           = llm_objects (snd (get_llm s f))
             @ [\<lparr>model = current_model s', temperature = llm_temperature s', max_retries = 5\<rparr>]"
  using assms
  by (cases "llm_instance f") (simp_all add: get_llm_def reset_llm_def factory_ok_def Let_def)

theorem get_llm_cached_until_reset_witness:
  "factory_ok factory_at_import
   \<and> fst (get_llm default_settings (snd (get_llm default_settings factory_at_import))) = 0
   \<and> fst (get_llm default_settings
            (reset_llm (snd (get_llm default_settings factory_at_import)))) = 1"
  using get_llm_cached_until_reset [of factory_at_import default_settings default_settings]
  by (simp add: factory_ok_def factory_at_import_def get_llm_def reset_llm_def Let_def)

lemma create_email_agent_fields:
  "Agent.tools (fst (create_email_agent tool s f)) = [tool]
   \<and> \<not> Agent.allow_delegation (fst (create_email_agent tool s f))
   \<and> Agent.max_iter (fst (create_email_agent tool s f))
       = py_or (max_agent_iterations s) 2"
  by (simp add: create_email_agent_def create_agent_def email_agent_config_def Let_def
      split_def)

lemma role_budget_never_used:
  "field_constraints s \<Longrightarrow>
   Agent.max_iter (fst (create_agent config s f)) = max_agent_iterations s"
  by (simp add: field_constraints_def create_agent_def py_or_def Let_def split_def)

text \<open>
  C1. The Email-Sender constructor produces a role bound to the email tool, capped at 2
  iterations, with delegation disabled. The code with nothing configured, where the
  iteration cap of the settings has its default 5: the constructor asks for the email tool,
  a budget of 2 and no delegation, and the agent it builds has the email tool and no
  delegation, but its maximum iteration count is 5. The budget of the role is the fallback
  of \<open>max_agent_iterations or max_iter\<close>, and the settings never hold a cap of 0.
\<close>

theorem email_agent_budget_overridden_by_default:
  "field_constraints default_settings
   \<and> AgentConfig.tools (email_agent_config ''email_tool'') = [''email_tool'']
   \<and> AgentConfig.max_iter (email_agent_config ''email_tool'') = 2
   \<and> \<not> AgentConfig.allow_delegation (email_agent_config ''email_tool'')
   \<and> Agent.tools (fst (create_email_agent ''email_tool'' default_settings factory_at_import))
       = [''email_tool'']
   \<and> \<not> Agent.allow_delegation
         (fst (create_email_agent ''email_tool'' default_settings factory_at_import))
   \<and> Agent.max_iter (fst (create_email_agent ''email_tool'' default_settings factory_at_import))
       = 5"
  by (simp add: field_constraints_def default_settings_def create_email_agent_def
      create_agent_def email_agent_config_def py_or_def get_llm_def factory_at_import_def
      Let_def split_def)

section \<open>The missing-keys check\<close>

lemma get_missing_keys_returns: "\<exists>names. get_missing_keys s = Inr names"
  by (simp add: get_missing_keys_def validate_required_keys_def Let_def)

text \<open>
  C8. The missing-keys check returns exactly the names of the absent required settings.
  The code at two configurations that differ only in the email password, both with the
  email user set to the empty string: with a password, nothing is reported; without one,
  \<open>EMAIL_USER\<close> is reported together with \<open>EMAIL_PASS\<close>. The same value of the email user
  is reported as missing in one and not in the other.
\<close>

theorem get_missing_keys_empty_email_user:
  "get_missing_keys (default_settings\<lparr>google_api_key := Some ''g-key'',
       serper_api_key := Some ''s-key'', email_user := Some [], email_pass := Some ''secret''\<rparr>)
     = Inr []
   \<and> get_missing_keys (default_settings\<lparr>google_api_key := Some ''g-key'',
       serper_api_key := Some ''s-key'', email_user := Some [], email_pass := None\<rparr>)
     = Inr [''EMAIL_USER'', ''EMAIL_PASS'']"
  by (simp add: get_missing_keys_def validate_required_keys_def current_api_key_def
      default_settings_def py_not_def)

section \<open>The workflow: progress, extraction and failure\<close>

lemma update_progress_absent:
  "subscriber env = None \<Longrightarrow> update_progress env p m st = (Inr (), st)"
  by (auto simp: update_progress_def subscriber_def split: option.splits if_splits)

lemma update_progress_returns:
  "subscriber env = Some f \<Longrightarrow> f p m = None \<Longrightarrow>
   update_progress env p m st = (Inr (), st\<lparr>calls := calls st @ [(p, m)]\<rparr>)"
  by (auto simp: update_progress_def subscriber_def split: option.splits if_splits)





lemma try_block_returns:
  assumes "reaches_kickoff env" and "subscriber_returns env" and "kickoff env = Inr out"
  shows "fst (try_block env t st) =
     Inr \<lparr>success = True, research_output = fst (extract_outputs out),
          summary_output = fst (snd (extract_outputs out)),
          email_output = snd (snd (extract_outputs out)), error_message = None,
          execution_time = total_seconds (clock env (readings st) - t),
          timestamp = clock env (readings st + 2)\<rparr>"
proof (cases "subscriber env")
  case None
  with assms show ?thesis
    by (simp add: try_block_def and_then_def update_progress_absent reaches_kickoff_def
        now_def split_def Let_def)
next
  case (Some f)
  with assms show ?thesis
    by (simp add: try_block_def and_then_def update_progress_returns reaches_kickoff_def
        subscriber_returns_def now_def split_def Let_def)
qed

lemma try_block_engine_raises:
  assumes "reaches_kickoff env" and "kickoff env = Inl e"
  shows "fst (try_block env t st) = Inl e"
    and "readings (snd (try_block env t st)) = readings st"
proof -
  show "fst (try_block env t st) = Inl e"
  proof (cases "subscriber env")
    case None
    with assms show ?thesis
      by (simp add: try_block_def and_then_def update_progress_absent reaches_kickoff_def)
  next
    case (Some f)
    with assms show ?thesis
      by (simp add: try_block_def and_then_def update_progress_returns reaches_kickoff_def)
  qed
  show "readings (snd (try_block env t st)) = readings st"
  proof (cases "subscriber env")
    case None
    with assms show ?thesis
      by (simp add: try_block_def and_then_def update_progress_absent reaches_kickoff_def)
  next
    case (Some f)
    with assms show ?thesis
      by (simp add: try_block_def and_then_def update_progress_returns reaches_kickoff_def)
  qed
qed

lemma execute_research_workflow_unfold:
  "execute_research_workflow env =
     (case try_block env (clock env 0) \<lparr>calls = [], readings = 2\<rparr> of
        (Inr r, st) \<Rightarrow> (r, st)
      | (Inl (Exception msg), st) \<Rightarrow>
          (\<lparr>success = False, research_output = None, summary_output = None,
            email_output = None, error_message = Some msg,
            execution_time = total_seconds (clock env (readings st) - clock env 0),
            timestamp = clock env (Suc (readings st))\<rparr>,
           st\<lparr>readings := Suc (Suc (readings st))\<rparr>))"
  by (simp add: execute_research_workflow_def now_def run_start_def split_def Let_def
      numeral_2_eq_2 split: sum.splits exc.splits)




text \<open>
  C7. When the engine returns a result whose output list has fewer than 3 entries (and
  nothing else in the run raises), extraction does not fail: the slots are filled by
  position for the entries present, the later slots stay unset, and the run returns a
  success result.
\<close>

theorem short_output_list_still_succeeds:
  assumes "reaches_kickoff env" and "subscriber_returns env"
    and "kickoff env = Inr \<lparr>tasks_output = Some outs\<rparr>" and "length outs < 3"
  shows "fst (execute_research_workflow env) =
     \<lparr>success = True,
      research_output = (if 0 < length outs then Some (raw (outs ! 0)) else None),
      summary_output = (if 1 < length outs then Some (raw (outs ! 1)) else None),
      email_output = None, error_message = None,
      execution_time = total_seconds (clock env 2 - clock env 0),
      timestamp = clock env 4\<rparr>"
proof -
  let ?st = "\<lparr>calls = [], readings = 2\<rparr>"
  obtain x st' where tb: "try_block env (clock env 0) ?st = (x, st')"
    by (cases "try_block env (clock env 0) ?st")
  from try_block_returns [OF assms(1,2,3), of "clock env 0" ?st] tb assms(4)
  show ?thesis
    by (simp add: execute_research_workflow_unfold extract_outputs_def)
qed

text \<open>
  C2, amended. In every run in which the engine raises an exception, the caller receives a
  result with \<open>success\<close> false, no stage output, and an error message equal to the
  exception's message (so non-empty exactly when that message is). Its elapsed time is the
  clock reading taken in the handler minus the reading taken at the start, so it is greater
  than 0 exactly when the clock advanced between the two.
\<close>

theorem engine_failure_is_reported:
  assumes "reaches_kickoff env" and "kickoff env = Inl (Exception msg)"
  shows "fst (execute_research_workflow env) =
     \<lparr>success = False, research_output = None, summary_output = None,
      email_output = None, error_message = Some msg,
      execution_time = total_seconds (clock env 2 - clock env 0),
      timestamp = clock env 3\<rparr>
     \<and> (0 < execution_time (fst (execute_research_workflow env))
          \<longleftrightarrow> clock env 0 < clock env 2)"
proof -
  let ?st = "\<lparr>calls = [], readings = 2\<rparr>"
  obtain x st' where tb: "try_block env (clock env 0) ?st = (x, st')"
    by (cases "try_block env (clock env 0) ?st")
  from try_block_engine_raises [OF assms, of "clock env 0" ?st] tb
  have "x = Inl (Exception msg)" and "readings st' = 2"
    by simp_all
  with tb show ?thesis
    by (simp add: execute_research_workflow_unfold total_seconds_def numeral_3_eq_3)
qed

theorem short_output_list_still_succeeds_witness:
  "fst (execute_research_workflow
      \<lparr>progress_callback = Some \<lparr>truthy = True, call = returns_quietly\<rparr>, clock = int, create_agents = Inr (),
       create_tasks = Inr (), assemble_crew = Inr (),
       kickoff = Inr \<lparr>tasks_output = Some [\<lparr>raw = ''findings''\<rparr>, \<lparr>raw = ''summary''\<rparr>]\<rparr>\<rparr>)
   = \<lparr>success = True, research_output = Some ''findings'', summary_output = Some ''summary'',
      email_output = None, error_message = None, execution_time = total_seconds 2,
      timestamp = 4\<rparr>"
proof -
  let ?env = "\<lparr>progress_callback = Some \<lparr>truthy = True, call = returns_quietly\<rparr>, clock = int, create_agents = Inr (),
       create_tasks = Inr (), assemble_crew = Inr (),
       kickoff = Inr \<lparr>tasks_output = Some [\<lparr>raw = ''findings''\<rparr>, \<lparr>raw = ''summary''\<rparr>]\<rparr>\<rparr>"
  have a: "reaches_kickoff ?env"
    by (simp add: reaches_kickoff_def subscriber_def returns_quietly_def)
  have b: "subscriber_returns ?env"
    by (simp add: subscriber_returns_def subscriber_def returns_quietly_def)
  have c: "kickoff ?env = Inr \<lparr>tasks_output = Some [\<lparr>raw = ''findings''\<rparr>, \<lparr>raw = ''summary''\<rparr>]\<rparr>"
    by simp
  have d: "length [\<lparr>raw = ''findings''\<rparr>, \<lparr>raw = ''summary''\<rparr>] < 3"
    by simp
  from short_output_list_still_succeeds [OF a b c d] show ?thesis
    by simp
qed

text \<open>
  C2, as stated, fails: the engine raises an exception whose message is empty (as
  \<open>raise Exception()\<close> does), the clock advances, and the error message of the result is
  the empty string.
\<close>

theorem engine_failure_counterexample:
  "fst (execute_research_workflow
      \<lparr>progress_callback = None, clock = int, create_agents = Inr (),
       create_tasks = Inr (), assemble_crew = Inr (), kickoff = Inl (Exception [])\<rparr>)
   = \<lparr>success = False, research_output = None, summary_output = None, email_output = None,
      error_message = Some [], execution_time = 1 / 500000, timestamp = 3\<rparr>"
  by (simp add: execute_research_workflow_unfold try_block_def and_then_def
      update_progress_def total_seconds_def)

theorem engine_failure_is_reported_witness:
  "fst (execute_research_workflow
      \<lparr>progress_callback = Some \<lparr>truthy = True, call = returns_quietly\<rparr>, clock = int, create_agents = Inr (),
       create_tasks = Inr (), assemble_crew = Inr (),
       kickoff = Inl (Exception ''rate limit exceeded'')\<rparr>)
   = \<lparr>success = False, research_output = None, summary_output = None, email_output = None,
      error_message = Some ''rate limit exceeded'', execution_time = total_seconds 2,
      timestamp = 3\<rparr>
   \<and> 0 < execution_time (fst (execute_research_workflow
      \<lparr>progress_callback = Some \<lparr>truthy = True, call = returns_quietly\<rparr>, clock = int, create_agents = Inr (),
       create_tasks = Inr (), assemble_crew = Inr (),
       kickoff = Inl (Exception ''rate limit exceeded'')\<rparr>))"
proof -
  let ?env = "\<lparr>progress_callback = Some \<lparr>truthy = True, call = returns_quietly\<rparr>, clock = int, create_agents = Inr (),
       create_tasks = Inr (), assemble_crew = Inr (),
       kickoff = Inl (Exception ''rate limit exceeded'')\<rparr>"
  have a: "reaches_kickoff ?env"
    by (simp add: reaches_kickoff_def subscriber_def returns_quietly_def)
  have b: "kickoff ?env = Inl (Exception ''rate limit exceeded'')"
    by simp
  from engine_failure_is_reported [OF a b] show ?thesis
    by (simp add: total_seconds_def)
qed

section \<open>File names of the downloads\<close>

lemma length_py_strip: "length (py_strip s) \<le> length s"
proof -
  have "length (dropWhile py_isspace (rev (dropWhile py_isspace s)))
        \<le> length (rev (dropWhile py_isspace s))"
    by (rule length_dropWhile_le)
  also have "\<dots> \<le> length s"
    by (simp add: length_dropWhile_le)
  finally show ?thesis
    by (simp add: py_strip_def)
qed

lemma set_py_strip: "set (py_strip s) \<subseteq> set s"
  by (auto simp: py_strip_def dest!: set_dropWhileD)

lemma py_strip_clean:
  assumes "s \<noteq> []" and "\<not> py_isspace (hd s)" and "\<not> py_isspace (last s)"
  shows "py_strip s = s"
proof -
  from assms(2) have "dropWhile py_isspace s = s"
    by (simp add: dropWhile_eq_self_iff)
  moreover from assms(1,3) have "dropWhile py_isspace (rev s) = rev s"
    by (simp add: dropWhile_eq_self_iff hd_rev)
  ultimately show ?thesis
    by (simp add: py_strip_def)
qed

lemma filename_char_space:
  "py_isspace (if py_isalnum c \<or> c \<in> set '' -_'' then c else CHR ''_'') \<longleftrightarrow> c = CHR '' ''"
  by (auto simp: py_isspace_def py_isalnum_def ascii_alpha_def ascii_digit_def Let_def)

text \<open>
  C4, as stated, fails: for the topic \<open>Electric vehicle battery trends 2025\<close> the file
  names keep the spaces of the topic; they are not the names with underscores.
\<close>

theorem download_file_names_counterexample:
  "map file_name (render_download_buttons
      \<lparr>success = True, research_output = Some ''findings'', summary_output = Some ''summary'',
       email_output = Some ''sent'', error_message = None, execution_time = 42,
       timestamp = 0\<rparr>
      ''Electric vehicle battery trends 2025'')
   = [''research_report_Electric vehicle battery trends 2025.md'',
      ''summary_Electric vehicle battery trends 2025.md'']"
  by code_simp

lemma filename_char_is_space:
  "(if py_isalnum c \<or> c \<in> set '' -_'' then c else CHR ''_'') = CHR '' '' \<longleftrightarrow> c = CHR '' ''"
  by auto

lemma py_strip_spaces:
  assumes "\<forall>c \<in> set s. py_isspace c \<longleftrightarrow> c = CHR '' ''"
  shows "py_strip s
           = rev (dropWhile (\<lambda>c. c = CHR '' '') (rev (dropWhile (\<lambda>c. c = CHR '' '') s)))"
proof -
  from assms have front: "dropWhile py_isspace s = dropWhile (\<lambda>c. c = CHR '' '') s"
    by (intro dropWhile_cong) auto
  have "set (rev (dropWhile (\<lambda>c. c = CHR '' '') s)) \<subseteq> set s"
    by (auto dest: set_dropWhileD)
  with assms have "dropWhile py_isspace (rev (dropWhile (\<lambda>c. c = CHR '' '') s))
                   = dropWhile (\<lambda>c. c = CHR '' '') (rev (dropWhile (\<lambda>c. c = CHR '' '') s))"
    by (intro dropWhile_cong) auto
  with front show ?thesis
    by (simp add: py_strip_def)
qed

lemma last_dropWhile_kept: "dropWhile P xs \<noteq> [] \<Longrightarrow> last (dropWhile P xs) = last xs"
  by (induction xs) auto

lemma trimmed_ends:
  assumes "t = rev (dropWhile P (rev (dropWhile P s)))" and "t \<noteq> []"
  shows "\<not> P (hd t)" and "\<not> P (last t)"
proof -
  let ?d = "dropWhile P s"
  let ?z = "dropWhile P (rev ?d)"
  from assms have z: "?z \<noteq> []"
    by simp
  have d: "?d \<noteq> []"
  proof
    assume "?d = []"
    with z show False by simp
  qed
  from z have "\<not> P (hd ?z)"
    by (rule hd_dropWhile)
  with assms z show "\<not> P (last t)"
    by (simp add: last_rev)
  from z have "last ?z = last (rev ?d)"
    by (rule last_dropWhile_kept)
  with d have "last ?z = hd ?d"
    by (simp add: last_rev)
  moreover from d have "\<not> P (hd ?d)"
    by (rule hd_dropWhile)
  ultimately show "\<not> P (hd t)"
    using assms z by (simp add: hd_rev)
qed

lemma safe_topic_closed_form:
  "safe_topic topic
     = rev (dropWhile (\<lambda>c. c = CHR '' '')
         (rev (dropWhile (\<lambda>c. c = CHR '' '')
            (map (\<lambda>c. if py_isalnum c \<or> c \<in> set '' -_'' then c else CHR ''_'') (take 50 topic)))))"
proof -
  have "\<forall>c \<in> set (map (\<lambda>c. if py_isalnum c \<or> c \<in> set '' -_'' then c else CHR ''_'') (take 50 topic)). py_isspace c \<longleftrightarrow> c = CHR '' ''"
  proof
    fix c
    assume "c \<in> set (map (\<lambda>c. if py_isalnum c \<or> c \<in> set '' -_'' then c else CHR ''_'') (take 50 topic))"
    then have "c \<in> (\<lambda>c. if py_isalnum c \<or> c \<in> set '' -_'' then c else CHR ''_'') ` set (take 50 topic)"
      by (simp only: set_map)
    then obtain x where c: "c = (\<lambda>c. if py_isalnum c \<or> c \<in> set '' -_'' then c else CHR ''_'') x"
      by blast
    show "py_isspace c \<longleftrightarrow> c = CHR '' ''"
      unfolding c by (simp only: filename_char_space filename_char_is_space)
  qed
  from py_strip_spaces [OF this] show ?thesis
    by (simp add: safe_topic_def take_map)
qed

text \<open>
  C4, amended. A download button is drawn only in a successful run and only for an output
  that is present and non-empty: the research report first, named \<open>research_report_\<close>,
  then the sanitized topic, then \<open>.md\<close>, and the summary second, named \<open>summary_\<close>, the
  sanitized topic, \<open>.md\<close>; each carries its output as Markdown. The sanitized topic is the
  first 50 characters of the topic with every character that is not alphanumeric, space,
  hyphen or underscore replaced by an underscore (not removed) and spaces kept, and then
  with the spaces at its two ends removed. So it has at most 50 characters, all of them
  alphanumeric, space, hyphen or underscore, and neither begins nor ends with a space.
  \<open>R&D: what is next?\<close> between spaces gives \<open>R_D_ what is next_\<close>,
  \<open>Electric vehicle battery trends 2025\<close> is unchanged, and a topic whose 50th character
  is a space loses it.
\<close>

theorem download_file_names:
  "map file_name (render_download_buttons result topic)
     = (if success result \<and> research_output result \<noteq> None \<and> research_output result \<noteq> Some []
        then [''research_report_'' @ safe_topic topic @ ''.md''] else [])
       @ (if success result \<and> summary_output result \<noteq> None \<and> summary_output result \<noteq> Some []
          then [''summary_'' @ safe_topic topic @ ''.md''] else [])
   \<and> map data (render_download_buttons result topic)
     = (case research_output result of
          None \<Rightarrow> []
        | Some text \<Rightarrow> if success result \<and> text \<noteq> [] then [text] else [])
       @ (case summary_output result of
            None \<Rightarrow> []
          | Some text \<Rightarrow> if success result \<and> text \<noteq> [] then [text] else [])
   \<and> (\<forall>b \<in> set (render_download_buttons result topic). mime b = ''text/markdown'')
   \<and> safe_topic topic
       = rev (dropWhile (\<lambda>c. c = CHR '' '')
           (rev (dropWhile (\<lambda>c. c = CHR '' '')
              (map (\<lambda>c. if py_isalnum c \<or> c \<in> set '' -_'' then c else CHR ''_'') (take 50 topic)))))
   \<and> length (safe_topic topic) \<le> 50
   \<and> (\<forall>c \<in> set (safe_topic topic). py_isalnum c \<or> c \<in> set '' -_'')
   \<and> (safe_topic topic \<noteq> [] \<longrightarrow>
        hd (safe_topic topic) \<noteq> CHR '' '' \<and> last (safe_topic topic) \<noteq> CHR '' '')
   \<and> safe_topic ''  R&D: what is next?  '' = ''R_D_ what is next_''
   \<and> safe_topic ''Electric vehicle battery trends 2025''
       = ''Electric vehicle battery trends 2025''
   \<and> safe_topic (replicate 49 CHR ''a'' @ '' bcd'') = replicate 49 CHR ''a''"
proof (intro conjI impI)
  let ?f = "(\<lambda>c. if py_isalnum c \<or> c \<in> set '' -_'' then c else CHR ''_'')"
  show "map file_name (render_download_buttons result topic)
     = (if success result \<and> research_output result \<noteq> None \<and> research_output result \<noteq> Some []
        then [''research_report_'' @ safe_topic topic @ ''.md''] else [])
       @ (if success result \<and> summary_output result \<noteq> None \<and> summary_output result \<noteq> Some []
          then [''summary_'' @ safe_topic topic @ ''.md''] else [])"
    by (simp add: render_download_buttons_def split: option.splits)
  show "map data (render_download_buttons result topic)
     = (case research_output result of
          None \<Rightarrow> []
        | Some text \<Rightarrow> if success result \<and> text \<noteq> [] then [text] else [])
       @ (case summary_output result of
            None \<Rightarrow> []
          | Some text \<Rightarrow> if success result \<and> text \<noteq> [] then [text] else [])"
    by (simp add: render_download_buttons_def split: option.splits)
  show "\<forall>b \<in> set (render_download_buttons result topic). mime b = ''text/markdown''"
    by (auto simp: render_download_buttons_def split: option.splits if_splits)
  show closed: "safe_topic topic
       = rev (dropWhile (\<lambda>c. c = CHR '' '')
           (rev (dropWhile (\<lambda>c. c = CHR '' '') (map ?f (take 50 topic)))))"
    by (rule safe_topic_closed_form)
  have "length (safe_topic topic) \<le> length (take 50 (map ?f topic))"
    unfolding safe_topic_def by (rule length_py_strip)
  then show "length (safe_topic topic) \<le> 50"
    by simp
  have "set (safe_topic topic) \<subseteq> set (map ?f topic)"
    using set_py_strip [of "take 50 (map ?f topic)"] set_take_subset [of 50 "map ?f topic"]
    unfolding safe_topic_def by blast
  then show "\<forall>c \<in> set (safe_topic topic). py_isalnum c \<or> c \<in> set '' -_''"
    by (auto simp: py_isalnum_def ascii_alpha_def ascii_digit_def Let_def)
  show "safe_topic ''  R&D: what is next?  '' = ''R_D_ what is next_''"
    by code_simp
  show "safe_topic ''Electric vehicle battery trends 2025''
           = ''Electric vehicle battery trends 2025''"
    by code_simp
  show "safe_topic (replicate 49 CHR ''a'' @ '' bcd'') = replicate 49 CHR ''a''"
    by code_simp
  assume ne: "safe_topic topic \<noteq> []"
  from trimmed_ends(1) [OF closed ne] show "hd (safe_topic topic) \<noteq> CHR '' ''"
    by simp
  from trimmed_ends(2) [OF closed ne] show "last (safe_topic topic) \<noteq> CHR '' ''"
    by simp
qed

theorem download_file_names_witness:
  "map file_name (render_download_buttons
      \<lparr>success = True, research_output = Some ''findings'', summary_output = Some [],
       email_output = None, error_message = None, execution_time = 42, timestamp = 0\<rparr>
      ''  R&D  '')
   = [''research_report_R_D.md'']
   \<and> map file_name (render_download_buttons
      \<lparr>success = False, research_output = Some ''findings'', summary_output = Some ''summary'',
       email_output = None, error_message = Some ''failed'', execution_time = 42,
       timestamp = 0\<rparr>
      ''  R&D  '')
   = []"
proof -
  have "safe_topic ''  R&D  '' = ''R_D''"
    by code_simp
  with download_file_names [of "\<lparr>success = True, research_output = Some ''findings'',
       summary_output = Some [], email_output = None, error_message = None,
       execution_time = 42, timestamp = 0\<rparr>" "''  R&D  ''", THEN conjunct1]
    download_file_names [of "\<lparr>success = False, research_output = Some ''findings'',
       summary_output = Some ''summary'', email_output = None, error_message = Some ''failed'',
       execution_time = 42, timestamp = 0\<rparr>" "''  R&D  ''", THEN conjunct1]
  show ?thesis by simp
qed

section \<open>Validation of the topic and of the email address\<close>

lemma min_msg_differs:
  "''Topic must be at least '' @ a \<noteq> ''Topic must be less than '' @ b"
  "''Topic must be at least '' @ a \<noteq> ''Topic contains invalid characters''"
  "''Topic must be less than '' @ b \<noteq> ''Topic contains invalid characters''"
  by simp_all

text \<open>
  C10. For every non-empty input, the value of the result of \<open>validate_topic\<close> is the
  sanitized string (trimmed, whitespace runs collapsed to one space), on success and on
  failure, and the two length checks are made on that string: the minimum-length error is
  returned exactly when the sanitized string is shorter than \<open>min_length\<close>, the
  maximum-length error exactly when it is not and is longer than \<open>max_length\<close>. The raw
  input \<open>a    b\<close> has 6 characters and fails the minimum-length check at 5.
\<close>

theorem validate_topic_checks_sanitized:
  assumes "topic \<noteq> []"
  shows "value (validate_topic topic min_length max_length) = re_sub_spaces (py_strip topic)
       \<and> (error (validate_topic topic min_length max_length)
            = Some (''Topic must be at least '' @ str_int min_length @ '' characters long'')
          \<longleftrightarrow> int (length (re_sub_spaces (py_strip topic))) < min_length)
       \<and> (error (validate_topic topic min_length max_length)
            = Some (''Topic must be less than '' @ str_int max_length @ '' characters'')
          \<longleftrightarrow> min_length \<le> int (length (re_sub_spaces (py_strip topic)))
              \<and> max_length < int (length (re_sub_spaces (py_strip topic))))
       \<and> (is_valid (validate_topic topic min_length max_length)
          \<longrightarrow> min_length \<le> int (length (re_sub_spaces (py_strip topic)))
              \<and> int (length (re_sub_spaces (py_strip topic))) \<le> max_length)
       \<and> 5 \<le> length ''a    b''
       \<and> validate_topic ''a    b'' 5 500
           = \<lparr>is_valid = False, value = ''a b'',
              error = Some ''Topic must be at least 5 characters long''\<rparr>"
proof -
  have ex: "validate_topic ''a    b'' 5 500
           = \<lparr>is_valid = False, value = ''a b'',
              error = Some ''Topic must be at least 5 characters long''\<rparr>"
    by code_simp
  from assms ex show ?thesis
    by (simp add: validate_topic_def Let_def min_msg_differs)
qed

theorem validate_topic_checks_sanitized_witness:
  "''  ab   cd  '' \<noteq> []
   \<and> value (validate_topic ''  ab   cd  '' 5 500) = ''ab cd''
   \<and> is_valid (validate_topic ''  ab   cd  '' 5 500)"
proof -
  have "validate_topic ''  ab   cd  '' 5 500 = \<lparr>is_valid = True, value = ''ab cd'', error = None\<rparr>"
    by code_simp
  with validate_topic_checks_sanitized [of "''  ab   cd  ''" 5 500]
  show ?thesis by simp
qed

inductive_cases accepts_NeverE: "accepts Never w"
inductive_cases accepts_BlankE: "accepts Blank w"
inductive_cases accepts_SymE: "accepts (Sym p) w"
inductive_cases accepts_AltE: "accepts (Alt r s) w"
inductive_cases accepts_SeqE: "accepts (Seq r s) w"

lemma accepts_SeqD: "accepts (Seq r s) w \<Longrightarrow> \<exists>u v. w = u @ v \<and> accepts r u \<and> accepts s v"
  by (erule accepts_SeqE) blast

lemma accepts_SymD: "accepts (Sym p) w \<Longrightarrow> \<exists>c. w = [c] \<and> p c"
  by (erule accepts_SymE) blast

lemma nullable_accepts: "nullable r \<Longrightarrow> accepts r []"
proof (induction r)
  case (Seq r s)
  then have "accepts r []" and "accepts s []"
    by simp_all
  then have "accepts (Seq r s) ([] @ [])"
    by (rule acc_Seq)
  then show ?case by simp
qed (auto intro: accepts.intros)

lemma deriv_accepts: "accepts (deriv c r) w \<Longrightarrow> accepts r (c # w)"
proof (induction r arbitrary: w)
  case Never
  then show ?case by (auto elim: accepts_NeverE)
next
  case Blank
  then show ?case by (auto elim: accepts_NeverE)
next
  case (Sym p)
  then show ?case
    by (auto split: if_splits elim: accepts_NeverE accepts_BlankE intro: acc_Sym)
next
  case (Alt r s)
  then show ?case
    by (auto elim!: accepts_AltE intro: acc_AltL acc_AltR)
next
  case (Seq r s)
  have left: "accepts (Seq r s) (c # w)" if "accepts (Seq (deriv c r) s) w"
  proof -
    from that obtain u v where "w = u @ v" and "accepts (deriv c r) u" and "accepts s v"
      by (auto elim: accepts_SeqE)
    with Seq.IH(1) have "accepts (Seq r s) ((c # u) @ v)"
      by (intro acc_Seq) auto
    with \<open>w = u @ v\<close> show ?thesis by simp
  qed
  have right: "accepts (Seq r s) (c # w)" if "nullable r" and "accepts (deriv c s) w"
  proof -
    from that Seq.IH(2) have "accepts (Seq r s) ([] @ c # w)"
      by (intro acc_Seq nullable_accepts) auto
    then show ?thesis by simp
  qed
  from Seq.prems left right show ?case
    by (auto split: if_splits elim!: accepts_AltE)
next
  case (Star r)
  from Star.prems obtain u v where "w = u @ v" and "accepts (deriv c r) u"
    and "accepts (Star r) v"
    by (auto elim: accepts_SeqE)
  with Star.IH have "accepts (Star r) ((c # u) @ v)"
    by (intro acc_StarS) auto
  with \<open>w = u @ v\<close> show ?case by simp
qed

lemma re_fullmatch_accepts: "re_fullmatch r w \<Longrightarrow> accepts r w"
  by (induction w arbitrary: r) (auto intro: nullable_accepts deriv_accepts)

lemma accepts_Star_Sym:
  assumes "accepts r w" and "r = Star (Sym p)"
  shows "\<forall>c \<in> set w. p c"
  using assms
proof (induction rule: accepts.induct)
  case (acc_StarS r u v)
  from acc_StarS.prems have "r = Sym p"
    by simp
  with acc_StarS.hyps(1) obtain c where "u = [c]" and "p c"
    by (blast dest: accepts_SymD)
  with acc_StarS.IH(2) acc_StarS.prems show ?case
    by simp
qed simp_all

lemma accepts_Plus_Sym:
  assumes "accepts (Plus (Sym p)) w"
  shows "w \<noteq> [] \<and> (\<forall>c \<in> set w. p c)"
proof -
  from assms have "accepts (Seq (Sym p) (Star (Sym p))) w"
    by (simp add: Plus_def)
  then obtain u v where w: "w = u @ v" and u: "accepts (Sym p) u"
    and v: "accepts (Star (Sym p)) v"
    by (blast dest: accepts_SeqD)
  from u obtain c where "u = [c]" and "p c"
    by (blast dest: accepts_SymD)
  with w accepts_Star_Sym [OF v refl] show ?thesis
    by simp
qed

lemma accepts_email_pattern:
  assumes "accepts email_pattern e"
  shows "\<exists>l d. e = l @ CHR ''@'' # d \<and> l \<noteq> [] \<and> (\<forall>c \<in> set l. email_local_char c)
               \<and> (\<forall>c \<in> set d. email_domain_char c)"
proof -
  let ?tld = "Seq (Sym ascii_alpha) (Plus (Sym ascii_alpha))"
  let ?r2 = "Seq (Sym (\<lambda>c. c = CHR ''.'')) ?tld"
  let ?d = "Seq (Plus (Sym email_domain_char)) ?r2"
  let ?r1 = "Seq (Sym (\<lambda>c. c = CHR ''@'')) ?d"
  from assms have "accepts (Seq (Plus (Sym email_local_char)) ?r1) e"
    by (simp add: email_pattern_def)
  then obtain l r1 where e: "e = l @ r1"
    and l: "accepts (Plus (Sym email_local_char)) l" and r1: "accepts ?r1 r1"
    by (blast dest: accepts_SeqD)
  from r1 obtain x d where r1e: "r1 = x @ d"
    and x: "accepts (Sym (\<lambda>c. c = CHR ''@'')) x" and d: "accepts ?d d"
    by (blast dest: accepts_SeqD)
  from x have xe: "x = [CHR ''@'']"
    by (blast dest: accepts_SymD)
  from d obtain d1 r2 where de: "d = d1 @ r2"
    and d1: "accepts (Plus (Sym email_domain_char)) d1" and r2: "accepts ?r2 r2"
    by (blast dest: accepts_SeqD)
  from r2 obtain y r3 where r2e: "r2 = y @ r3"
    and y: "accepts (Sym (\<lambda>c. c = CHR ''.'')) y" and r3: "accepts ?tld r3"
    by (blast dest: accepts_SeqD)
  from y have ye: "y = [CHR ''.'']"
    by (blast dest: accepts_SymD)
  from r3 obtain z t where r3e: "r3 = z @ t"
    and z: "accepts (Sym ascii_alpha) z" and t: "accepts (Plus (Sym ascii_alpha)) t"
    by (blast dest: accepts_SeqD)
  from z obtain a where ze: "z = [a]" and a: "ascii_alpha a"
    by (blast dest: accepts_SymD)
  have dot: "email_domain_char CHR ''.''"
    by (simp add: email_domain_char_def)
  from accepts_Plus_Sym [OF t] have "\<forall>c \<in> set t. email_domain_char c"
    by (simp add: email_domain_char_def)
  with accepts_Plus_Sym [OF d1] a dot have "\<forall>c \<in> set d. email_domain_char c"
    by (auto simp: de r2e ye r3e ze email_domain_char_def)
  with accepts_Plus_Sym [OF l] e r1e xe show ?thesis
    by auto
qed

lemma at_sign_in_no_class:
  "\<not> email_local_char CHR ''@''" "\<not> email_domain_char CHR ''@''"
  by (simp_all add: email_local_char_def email_domain_char_def ascii_alpha_def ascii_digit_def)

lemma re_match_anchored_email:
  assumes "re_match_anchored email_pattern e"
  shows "\<exists>l d. e = l @ CHR ''@'' # d \<and> CHR ''@'' \<notin> set l \<and> CHR ''@'' \<notin> set d"
proof -
  have shape: "\<exists>l d. w = l @ CHR ''@'' # d \<and> CHR ''@'' \<notin> set l \<and> CHR ''@'' \<notin> set d"
    if "re_fullmatch email_pattern w" for w
  proof -
    from that have "accepts email_pattern w"
      by (rule re_fullmatch_accepts)
    then obtain l d where "w = l @ CHR ''@'' # d" and "\<forall>c \<in> set l. email_local_char c"
      and "\<forall>c \<in> set d. email_domain_char c"
      by (blast dest: accepts_email_pattern)
    with at_sign_in_no_class show ?thesis
      by blast
  qed
  from assms consider "re_fullmatch email_pattern e"
    | "e \<noteq> []" and "last e = CHR 0x0A" and "re_fullmatch email_pattern (butlast e)"
    by (auto simp: re_match_anchored_def)
  then show ?thesis
  proof cases
    case 1
    then show ?thesis by (rule shape)
  next
    case 2
    from shape [OF 2(3)] obtain l d where b: "butlast e = l @ CHR ''@'' # d"
      and l: "CHR ''@'' \<notin> set l" and d: "CHR ''@'' \<notin> set d"
      by blast
    from 2(1) have "e = butlast e @ [last e]"
      by simp
    with b 2(2) have "e = l @ CHR ''@'' # (d @ [CHR 0x0A])"
      by simp
    moreover from d have "CHR ''@'' \<notin> set (d @ [CHR 0x0A])"
      by simp
    ultimately show ?thesis
      using l by blast
  qed
qed

lemma py_split_no_sep: "sep \<notin> set s \<Longrightarrow> py_split sep s = [s]"
  by (induction s) auto

lemma py_split_at_sep: "sep \<notin> set l \<Longrightarrow> py_split sep (l @ sep # d) = l # py_split sep d"
  by (induction l) auto

lemma parts_of_address:
  assumes "CHR ''@'' \<notin> set l"
  shows "local_part (l @ CHR ''@'' # d) = l" and "domain_part (l @ CHR ''@'' # d) = d"
proof -
  from assms show l: "local_part (l @ CHR ''@'' # d) = l"
    unfolding local_part_def by (induction l) auto
  then show "domain_part (l @ CHR ''@'' # d) = d"
    by (simp add: domain_part_def)
qed

lemma split_of_matching_email:
  assumes "re_match_anchored email_pattern e"
  shows "py_index (py_split CHR ''@'' e) 1 = Inr (domain_part e)"
proof -
  from re_match_anchored_email [OF assms] obtain l d where e: "e = l @ CHR ''@'' # d"
    and l: "CHR ''@'' \<notin> set l" and d: "CHR ''@'' \<notin> set d"
    by blast
  from l d have "py_split CHR ''@'' e = [l, d]"
    by (simp add: e py_split_at_sep py_split_no_sep)
  with parts_of_address(2) [OF l, of d] show ?thesis
    by (simp add: py_index_def e)
qed

text \<open>
  \<open>validate_email\<close> returns a result for every input: the index into the split address
  is only taken after the pattern has matched, and a match has an \<open>@\<close>.
\<close>

lemma validate_email_returns: "\<exists>r. validate_email email = Inr r"
proof (cases "email \<noteq> [] \<and> re_match_anchored email_pattern (py_lower (py_strip email))")
  case True
  with split_of_matching_email [of "py_lower (py_strip email)"] show ?thesis
    by (simp add: validate_email_def Let_def split: option.splits)
next
  case False
  then show ?thesis
    by (auto simp: validate_email_def Let_def)
qed

lemma email_pattern_not_empty: "\<not> re_match_anchored email_pattern []"
  by (simp add: re_match_anchored_def email_pattern_def Plus_def)

text \<open>
  C3, amended. For every input string that, after trimming and lowercasing, matches the
  pattern \<open>local@domain.tld\<close> and whose domain part is not one of the five domains of the
  typo-correction table, \<open>validate_email\<close> returns \<open>is_valid\<close> true with the lowercased,
  trimmed value as the sanitized value.
\<close>

theorem validate_email_accepts_valid:
  assumes "re_match_anchored email_pattern (py_lower (py_strip email))"
    and "domain_part (py_lower (py_strip email))
           \<notin> {''gmial.com'', ''gmal.com'', ''gamil.com'', ''yaho.com'', ''hotmal.com''}"
  shows "validate_email email
           = Inr \<lparr>is_valid = True, value = py_lower (py_strip email), error = None\<rparr>"
proof -
  have "email \<noteq> []"
  proof
    assume "email = []"
    with assms(1) email_pattern_not_empty show False
      by (simp add: py_lower_def py_strip_def)
  qed
  moreover from assms(2) have "map_of common_domains (domain_part (py_lower (py_strip email))) = None"
    by (simp add: common_domains_def)
  ultimately show ?thesis
    using assms(1) split_of_matching_email [OF assms(1)]
    by (simp add: validate_email_def Let_def)
qed

text \<open>
  C3, as stated, fails: \<open>user@gmial.com\<close> matches the pattern after trimming and
  lowercasing, and \<open>validate_email\<close> returns \<open>is_valid\<close> false for it.
\<close>

theorem validate_email_typo_counterexample:
  "re_match_anchored email_pattern (py_lower (py_strip ''user@gmial.com''))
   \<and> validate_email ''user@gmial.com''
       = Inr \<lparr>is_valid = False, value = ''user@gmial.com'',
              error = Some (''Did you mean '' @ [CHR 0x27] @ ''user@gmail.com''
                            @ [CHR 0x27] @ ''?'')\<rparr>"
  by code_simp

theorem validate_email_accepts_valid_witness:
  "validate_email '' Analyst@Example.COM ''
     = Inr \<lparr>is_valid = True, value = ''analyst@example.com'', error = None\<rparr>"
proof -
  have s: "py_lower (py_strip '' Analyst@Example.COM '') = ''analyst@example.com''"
    by code_simp
  have a: "re_match_anchored email_pattern (py_lower (py_strip '' Analyst@Example.COM ''))"
    unfolding s by code_simp
  have b: "domain_part (py_lower (py_strip '' Analyst@Example.COM ''))
           \<notin> {''gmial.com'', ''gmal.com'', ''gamil.com'', ''yaho.com'', ''hotmal.com''}"
    unfolding s by (simp add: domain_part_def local_part_def)
  from validate_email_accepts_valid [OF a b] s show ?thesis
    by simp
qed

lemma validate_email_typo_domain_invalid:
  assumes "re_match_anchored email_pattern (py_lower (py_strip email))"
    and "map_of common_domains (domain_part (py_lower (py_strip email))) = Some fixed"
  shows "\<exists>r. validate_email email = Inr r \<and> \<not> is_valid r \<and> value r = py_lower (py_strip email)"
proof -
  have "email \<noteq> []"
  proof
    assume "email = []"
    with assms(1) email_pattern_not_empty show False
      by (simp add: py_lower_def py_strip_def)
  qed
  with assms split_of_matching_email [OF assms(1)] show ?thesis
    by (simp add: validate_email_def Let_def)
qed

text \<open>
  C5. For a pattern-valid address whose domain is in the typo table, the error message
  suggests the corrected address. The code at \<open>gmal.com@gmal.com\<close>, whose local part
  contains the misspelt domain: the suggestion is built by replacing every occurrence of
  the domain in the whole address, so it is \<open>gmail.com@gmail.com\<close>, while the corrected
  address keeps the local part: \<open>gmal.com@gmail.com\<close>.
\<close>

theorem validate_email_suggestion_rewrites_local_part:
  "validate_email ''gmal.com@gmal.com''
     = Inr \<lparr>is_valid = False, value = ''gmal.com@gmal.com'',
            error = Some (''Did you mean '' @ [CHR 0x27] @ ''gmail.com@gmail.com''
                          @ [CHR 0x27] @ ''?'')\<rparr>
   \<and> corrected_address ''gmal.com@gmal.com'' = Some ''gmal.com@gmail.com''"
  by code_simp

end
